theory Spec2Isabelle
  imports Main
begin

section \<open>Python strings and the character classifiers\<close>

text \<open>
  A Python \<open>str\<close> is a sequence of Unicode code points; a code point is modelled as a
  natural number and a string as a list of them. \<open>py\<close> turns an ASCII literal into
  such a list, so that \<open>py ''ab''\<close> is \<open>[97, 98]\<close>. The two characters that an
  Isabelle string literal cannot hold are named.
\<close>

type_synonym pystr = "nat list"

definition py :: "string \<Rightarrow> pystr" where
  "py s = map of_char s"

definition dquote :: nat where
  "dquote = 34"

definition backslash :: nat where
  "backslash = 92"

text \<open>
  \<open>str.isspace\<close>, \<open>str.isalpha\<close> and \<open>str.isdigit\<close> are built into Python and read
  the Unicode character database, which is no part of the repository. The model takes
  them as a parameter, one predicate on code points each. \<open>isdecimal\<close> is the class
  that the regular expression engine uses for \<open>\d\<close>; only the model of matching
  reads it.
\<close>

record unicode_db =
  isspace :: "nat \<Rightarrow> bool"
  isalpha :: "nat \<Rightarrow> bool"
  isdigit :: "nat \<Rightarrow> bool"
  isdecimal :: "nat \<Rightarrow> bool"

text \<open>
  Two facts of the real database that the general theorems assume: no code point is in
  two of the three classes that the scan tests, and the double quote is in none.
\<close>

definition classes_disjoint :: "unicode_db \<Rightarrow> bool" where
  "classes_disjoint db =
     (\<forall>c. \<not> (isspace db c \<and> isalpha db c) \<and> \<not> (isspace db c \<and> isdigit db c) \<and>
          \<not> (isalpha db c \<and> isdigit db c) \<and>
          (c = dquote \<longrightarrow> \<not> isspace db c \<and> \<not> isalpha db c \<and> \<not> isdigit db c))"

text \<open>
  The Latin-1 block (code points below 256) of the database, as Python 3 answers:
  \<open>isspace\<close> holds of TAB to CR, FS to US, the space, NEL and the no-break space;
  \<open>isalpha\<close> of the ASCII letters, the two ordinal indicators, the micro sign and the
  accented letters (not the multiplication and division signs); \<open>isdigit\<close> of the
  ASCII digits and the superscripts one, two and three; \<open>isdecimal\<close> of the ASCII
  digits only. \<open>latin1_db\<close> answers False from 256 on, where it stands for nothing:
  the theorems speak of every database that agrees with it inside the block
  (\<open>agrees_latin1\<close>), and the closed examples evaluate it on strings inside the block.
\<close>

definition latin1_isspace :: "nat \<Rightarrow> bool" where
  "latin1_isspace c = ((9 \<le> c \<and> c \<le> 13) \<or> (28 \<le> c \<and> c \<le> 32) \<or> c = 133 \<or> c = 160)"

definition latin1_isalpha :: "nat \<Rightarrow> bool" where
  "latin1_isalpha c =
     ((65 \<le> c \<and> c \<le> 90) \<or> (97 \<le> c \<and> c \<le> 122) \<or> c = 170 \<or> c = 181 \<or> c = 186 \<or>
      (192 \<le> c \<and> c \<le> 214) \<or> (216 \<le> c \<and> c \<le> 246) \<or> (248 \<le> c \<and> c \<le> 255))"

definition latin1_isdigit :: "nat \<Rightarrow> bool" where
  "latin1_isdigit c = ((48 \<le> c \<and> c \<le> 57) \<or> c = 178 \<or> c = 179 \<or> c = 185)"

definition latin1_isdecimal :: "nat \<Rightarrow> bool" where
  "latin1_isdecimal c = (48 \<le> c \<and> c \<le> 57)"

definition latin1_db :: unicode_db where
  "latin1_db =
     \<lparr>isspace = latin1_isspace, isalpha = latin1_isalpha,
      isdigit = latin1_isdigit, isdecimal = latin1_isdecimal\<rparr>"

definition agrees_latin1 :: "unicode_db \<Rightarrow> bool" where
  "agrees_latin1 db =
     (\<forall>c<256. isspace db c = latin1_isspace c \<and> isalpha db c = latin1_isalpha c \<and>
              isdigit db c = latin1_isdigit c \<and> isdecimal db c = latin1_isdecimal c)"

section \<open>The converter\<close>

text \<open>
  \<open>RegexConverter.__init__\<close>: the raw string \<open>r".^$*+?()[]{}|\\"\<close>, whose last two
  characters are both backslashes.
\<close>

definition regex_special_chars :: pystr where
  "regex_special_chars = py ''.^$*+?()[]{}|'' @ [backslash, backslash]"

text \<open>
  The element \<open>f"\\{c}" if c in self.regex_special_chars else c\<close> of the three list
  comprehensions, and their \<open>"".join([... for c in s])\<close>.
\<close>

definition escape_char :: "nat \<Rightarrow> pystr" where
  "escape_char c = (if c \<in> set regex_special_chars then [backslash, c] else [c])"

definition escape_all :: "pystr \<Rightarrow> pystr" where
  "escape_all s = concat (map escape_char s)"

text \<open>The decimal digits that an f-string writes for a count.\<close>

fun str_int :: "nat \<Rightarrow> pystr" where
  "str_int n = (if n < 10 then [48 + n] else str_int (n div 10) @ [48 + n mod 10])"

declare str_int.simps [simp del]

text \<open>
  The only operation of the scan that can raise is the subscript \<open>input_string[k]\<close>,
  an IndexError outside the string. The other errors belong to the command line program.
\<close>

datatype py_error = IndexError | TypeError | EOFError

definition getitem :: "'a list \<Rightarrow> nat \<Rightarrow> py_error + 'a" where
  "getitem s k = (if k < length s then Inr (s ! k) else Inl IndexError)"

text \<open>
  The three inner loops
  \<open>while j < len(input_string) and input_string[j].isX(): count += 1; j += 1\<close>
  differ in the classifier only; \<open>count_run p s count j\<close> is that loop for the
  classifier \<open>p\<close> and returns the final count. \<open>and\<close> is short-circuit: the
  subscript is read only when \<open>j < len(input_string)\<close>.
\<close>

function count_run :: "(nat \<Rightarrow> bool) \<Rightarrow> pystr \<Rightarrow> nat \<Rightarrow> nat \<Rightarrow> py_error + nat" where
  "count_run p s count j =
     (if j < length s then
        (case getitem s j of
           Inl e \<Rightarrow> Inl e
         | Inr c \<Rightarrow> if p c then count_run p s (count + 1) (j + 1) else Inr count)
      else Inr count)"
  by pat_completeness auto
termination
  by (relation "measure (\<lambda>(p, s, count, j). length s - j)") auto

declare count_run.simps [simp del]

text \<open>The local variables of the generic branch; \<open>cur_i\<close> is the cursor \<open>i\<close>.\<close>

record scan_state =
  parts :: "pystr list"
  cur_i :: nat
  in_quotes :: bool
  quote_buffer :: pystr

definition initial_state :: scan_state where
  "initial_state = \<lparr>parts = [], cur_i = 0, in_quotes = False, quote_buffer = []\<rparr>"

text \<open>
  One iteration of \<open>while i < len(input_string)\<close>, branch by branch in the order of
  the source: the quote, the inside of a quote, a run of whitespace, of letters, of
  digits, and any other character.
\<close>

definition loop_body :: "unicode_db \<Rightarrow> pystr \<Rightarrow> scan_state \<Rightarrow> py_error + scan_state" where
  "loop_body db input_string st =
     (case getitem input_string (cur_i st) of
        Inl e \<Rightarrow> Inl e
      | Inr char \<Rightarrow>
          if char = dquote then
            (if in_quotes st then
               Inr (st\<lparr>parts := parts st @ [escape_all (quote_buffer st)],
                       quote_buffer := [], in_quotes := False, cur_i := cur_i st + 1\<rparr>)
             else Inr (st\<lparr>in_quotes := True, cur_i := cur_i st + 1\<rparr>))
          else if in_quotes st then
            Inr (st\<lparr>quote_buffer := quote_buffer st @ [char], cur_i := cur_i st + 1\<rparr>)
          else if isspace db char then
            (case count_run (isspace db) input_string 1 (cur_i st + 1) of
               Inl e \<Rightarrow> Inl e
             | Inr space_count \<Rightarrow>
                 Inr (st\<lparr>parts := parts st @
                           [if space_count > 1
                            then [backslash] @ py ''s{'' @ str_int space_count @ py ''}''
                            else [backslash] @ py ''s''],
                         cur_i := cur_i st + space_count\<rparr>))
          else if isalpha db char then
            (case count_run (isalpha db) input_string 1 (cur_i st + 1) of
               Inl e \<Rightarrow> Inl e
             | Inr letter_count \<Rightarrow>
                 if letter_count > 1 then
                   Inr (st\<lparr>parts := parts st @
                             [py ''[a-zA-Z]{'' @ str_int letter_count @ py ''}''],
                           cur_i := cur_i st + letter_count\<rparr>)
                 else Inr (st\<lparr>parts := parts st @ [py ''[a-zA-Z]''], cur_i := cur_i st + 1\<rparr>))
          else if isdigit db char then
            (case count_run (isdigit db) input_string 1 (cur_i st + 1) of
               Inl e \<Rightarrow> Inl e
             | Inr digit_count \<Rightarrow>
                 if digit_count > 1 then
                   Inr (st\<lparr>parts := parts st @
                             [[backslash] @ py ''d{'' @ str_int digit_count @ py ''}''],
                           cur_i := cur_i st + digit_count\<rparr>)
                 else Inr (st\<lparr>parts := parts st @ [[backslash] @ py ''d''],
                              cur_i := cur_i st + 1\<rparr>))
          else
            Inr (st\<lparr>parts := parts st @
                      [if char \<in> set regex_special_chars then [backslash, char] else [char]],
                    cur_i := cur_i st + 1\<rparr>))"

text \<open>
  The inner loop in closed form: it adds to the count the length of the longest prefix of
  \<open>input_string[j:]\<close> whose characters are all in the class, and never raises.
\<close>

lemma count_run_eq:
  "count_run p s count j = Inr (count + length (takeWhile p (drop j s)))"
proof (induction p s count j rule: count_run.induct)
  case (1 p s count j)
  show ?case
  proof (cases "j < length s")
    case False
    then show ?thesis by (subst count_run.simps) simp
  next
    case True
    then have d: "drop j s = s ! j # drop (Suc j) s"
      by (simp add: Cons_nth_drop_Suc)
    show ?thesis
    proof (cases "p (s ! j)")
      case True
      with \<open>j < length s\<close> 1 d show ?thesis
        by (subst count_run.simps) (simp add: getitem_def)
    next
      case False
      with \<open>j < length s\<close> d show ?thesis
        by (subst count_run.simps) (simp add: getitem_def)
    qed
  qed
qed

definition run_len :: "(nat \<Rightarrow> bool) \<Rightarrow> pystr \<Rightarrow> nat \<Rightarrow> nat" where
  "run_len p s k = Suc (length (takeWhile p (drop (Suc k) s)))"

lemma count_run_1: "count_run p s (Suc 0) (Suc k) = Inr (run_len p s k)"
  by (simp add: count_run_eq run_len_def)

lemma run_len_le: "k < length s \<Longrightarrow> k + run_len p s k \<le> length s"
proof -
  assume k: "k < length s"
  have "length (takeWhile p (drop (Suc k) s)) \<le> length (drop (Suc k) s)"
    by (rule length_takeWhile_le)
  with k show ?thesis by (simp add: run_len_def)
qed

lemma loop_body_total:
  assumes "cur_i st < length s"
  shows "\<exists>st'. loop_body db s st = Inr st' \<and> cur_i st < cur_i st' \<and> cur_i st' \<le> length s"
  using assms run_len_le[OF assms, of "isspace db"] run_len_le[OF assms, of "isalpha db"]
    run_len_le[OF assms, of "isdigit db"]
  by (simp add: loop_body_def getitem_def count_run_1 run_len_def)

text \<open>
  The loop \<open>while i < len(input_string)\<close>. It terminates because every iteration that
  returns moves the cursor forward.
\<close>

function scan_loop :: "unicode_db \<Rightarrow> pystr \<Rightarrow> scan_state \<Rightarrow> py_error + scan_state" where
  "scan_loop db input_string st =
     (if cur_i st < length input_string then
        (case loop_body db input_string st of
           Inl e \<Rightarrow> Inl e
         | Inr st' \<Rightarrow> scan_loop db input_string st')
      else Inr st)"
  by pat_completeness auto
termination
proof (relation "measure (\<lambda>(db, s, st). length s - cur_i st)")
  show "wf (measure (\<lambda>(db, s, st). length s - cur_i st))" by simp
next
  fix db :: unicode_db and input_string :: pystr and st st' :: scan_state
  assume "cur_i st < length input_string" and "loop_body db input_string st = Inr st'"
  with loop_body_total[of st input_string db]
  show "((db, input_string, st'), (db, input_string, st))
          \<in> measure (\<lambda>(db, s, st). length s - cur_i st)"
    by auto
qed

declare scan_loop.simps [simp del]

text \<open>
  The generic branch up to \<open>"".join(parts)\<close>: the loop from the initial state, then
  the flush of a quote buffer that is not empty.
\<close>

definition generic_parts :: "unicode_db \<Rightarrow> pystr \<Rightarrow> py_error + pystr list" where
  "generic_parts db input_string =
     (case scan_loop db input_string initial_state of
        Inl e \<Rightarrow> Inl e
      | Inr st \<Rightarrow>
          Inr (if quote_buffer st \<noteq> []
               then parts st @ [escape_all (quote_buffer st)]
               else parts st))"

definition string_to_regex :: "unicode_db \<Rightarrow> pystr \<Rightarrow> bool \<Rightarrow> bool \<Rightarrow> py_error + pystr" where
  "string_to_regex db input_string generic_matching full_match =
     (case (if \<not> generic_matching then Inr (escape_all input_string)
            else (case generic_parts db input_string of
                    Inl e \<Rightarrow> Inl e
                  | Inr ps \<Rightarrow> Inr (concat ps)))
      of Inl e \<Rightarrow> Inl e
       | Inr result \<Rightarrow> Inr (if full_match then py ''^'' @ result @ py ''$'' else result))"

text \<open>
  The words of the claims about runs. \<open>quotes_closed pre\<close>: the piece \<open>pre\<close> holds an
  even number of double quotes, so that the scan is outside a quote after it.
  \<open>maximal_run p pre run rest\<close>: in \<open>pre @ run @ rest\<close> the piece \<open>run\<close> is a run of
  the class \<open>p\<close> that cannot be extended to either side.
\<close>

definition quotes_closed :: "pystr \<Rightarrow> bool" where
  "quotes_closed pre = even (count_list pre dquote)"

definition maximal_run :: "(nat \<Rightarrow> bool) \<Rightarrow> pystr \<Rightarrow> pystr \<Rightarrow> pystr \<Rightarrow> bool" where
  "maximal_run p pre run rest =
     (run \<noteq> [] \<and> list_all p run \<and> (pre = [] \<or> \<not> p (last pre)) \<and> (rest = [] \<or> \<not> p (hd rest)))"

section \<open>The patterns that the converter emits, as Python's \<open>re\<close> reads them\<close>

text \<open>
  The claims about matching need the meaning of a pattern. \<open>re\<close> is Python's standard
  library and no part of the repository; what follows models, after its documentation, the
  part of its pattern language that \<open>string_to_regex\<close> can emit, for a \<open>str\<close> pattern
  with no flags: a literal character, a backslash before a special character (that
  character), \<open>\d\<close> (a Unicode decimal digit, \<open>isdecimal\<close>), \<open>\s\<close> (Unicode
  whitespace, \<open>isspace\<close>), the class \<open>[a-zA-Z]\<close>, the exact repetition \<open>{n}\<close>
  after one of these, \<open>^\<close> (the start of the string) and \<open>$\<close> (the end of the
  string, or just before a newline that ends it). \<open>re_parse\<close> answers \<open>None\<close> on
  every pattern outside this part, whether Python accepts it or not.
\<close>

datatype re_atom =
    Literal nat
  | Category_Digit
  | Category_Space
  | In_Ranges "(nat \<times> nat) list"
  | At_Beginning
  | At_End

type_synonym re_item = "re_atom \<times> nat"

text \<open>One atom of a pattern that starts with the character \<open>c\<close>, and the rest.\<close>

definition parse_atom :: "nat \<Rightarrow> pystr \<Rightarrow> (re_atom \<times> pystr) option" where
  "parse_atom c cs =
     (if c = backslash then
        (case cs of
           [] \<Rightarrow> None
         | d # rest \<Rightarrow>
             if d = of_char CHR ''d'' then Some (Category_Digit, rest)
             else if d = of_char CHR ''s'' then Some (Category_Space, rest)
             else if d \<in> set regex_special_chars then Some (Literal d, rest)
             else None)
      else if c = of_char CHR ''['' then
        (if take 7 cs = py ''a-zA-Z]''
         then Some (In_Ranges [(of_char CHR ''a'', of_char CHR ''z''),
                               (of_char CHR ''A'', of_char CHR ''Z'')], drop 7 cs)
         else None)
      else if c = of_char CHR ''^'' then Some (At_Beginning, cs)
      else if c = of_char CHR ''$'' then Some (At_End, cs)
      else if c \<in> set regex_special_chars then None
      else Some (Literal c, cs))"

text \<open>
  The repetition after an atom: \<open>{\<close>, decimal digits, \<open>}\<close>; no repetition is one
  occurrence. A count from \<open>MAXREPEAT\<close> on is an OverflowError of the real parser, and
  an anchor cannot be repeated.
\<close>

definition is_ascii_digit :: "nat \<Rightarrow> bool" where
  "is_ascii_digit c = (48 \<le> c \<and> c \<le> 57)"

definition int_of_digits :: "pystr \<Rightarrow> nat" where
  "int_of_digits ds = foldl (\<lambda>a d. 10 * a + (d - 48)) 0 ds"

definition MAXREPEAT :: nat where
  "MAXREPEAT = 4294967295"

definition parse_repeat :: "re_atom \<Rightarrow> pystr \<Rightarrow> (nat \<times> pystr) option" where
  "parse_repeat a cs =
     (case cs of
        [] \<Rightarrow> Some (1, [])
      | c # rest \<Rightarrow>
          if c = of_char CHR ''{'' then
            (if a = At_Beginning \<or> a = At_End then None
             else
               (case dropWhile is_ascii_digit rest of
                  [] \<Rightarrow> None
                | e # rest' \<Rightarrow>
                    if e = of_char CHR ''}'' \<and> takeWhile is_ascii_digit rest \<noteq> [] \<and>
                       int_of_digits (takeWhile is_ascii_digit rest) < MAXREPEAT
                    then Some (int_of_digits (takeWhile is_ascii_digit rest), rest')
                    else None))
          else Some (1, cs))"

lemma parse_atom_length: "parse_atom c cs = Some (a, rest) \<Longrightarrow> length rest \<le> length cs"
  by (auto simp: parse_atom_def split: if_splits list.splits)

lemma dropWhile_Cons_length: "dropWhile p xs = e # ys \<Longrightarrow> length ys < length xs"
  using length_dropWhile_le[of p xs] by simp

lemma parse_repeat_length: "parse_repeat a cs = Some (n, rest) \<Longrightarrow> length rest \<le> length cs"
  by (auto simp: parse_repeat_def split: if_splits list.splits dest!: dropWhile_Cons_length)

function re_parse :: "pystr \<Rightarrow> re_item list option" where
  "re_parse [] = Some []"
| "re_parse (c # cs) =
     (case parse_atom c cs of
        None \<Rightarrow> None
      | Some (a, rest) \<Rightarrow>
          (case parse_repeat a rest of
             None \<Rightarrow> None
           | Some (n, rest') \<Rightarrow>
               (case re_parse rest' of
                  None \<Rightarrow> None
                | Some items \<Rightarrow> Some ((a, n) # items))))"
  by pat_completeness auto
termination
proof (relation "measure length")
  show "wf (measure length)" by simp
next
  fix c :: nat and cs rest rest' :: pystr and a :: re_atom and n :: nat and x y
  assume "parse_atom c cs = Some x" and "(a, rest) = x" and "parse_repeat a rest = Some y"
    and "(n, rest') = y"
  then have "length rest \<le> length cs" and "length rest' \<le> length rest"
    using parse_atom_length[of c cs a rest] parse_repeat_length[of a rest n rest'] by auto
  then show "(rest', c # cs) \<in> measure length" by simp
qed

text \<open>
  Matching at a position. Every item has one length, so there is nothing to backtrack:
  \<open>match_here\<close> gives the end of the match that starts at \<open>pos\<close>, and
  \<open>re_search\<close> the span of the first match from the left, as \<open>Pattern.search\<close>.
\<close>

fun atom_matches :: "unicode_db \<Rightarrow> re_atom \<Rightarrow> nat \<Rightarrow> bool" where
  "atom_matches db (Literal x) c = (c = x)"
| "atom_matches db Category_Digit c = isdecimal db c"
| "atom_matches db Category_Space c = isspace db c"
| "atom_matches db (In_Ranges rs) c = list_ex (\<lambda>(lo, hi). lo \<le> c \<and> c \<le> hi) rs"
| "atom_matches db At_Beginning c = False"
| "atom_matches db At_End c = False"

fun match_here :: "unicode_db \<Rightarrow> re_item list \<Rightarrow> pystr \<Rightarrow> nat \<Rightarrow> nat option" where
  "match_here db [] string pos = Some pos"
| "match_here db ((a, n) # items) string pos =
     (if a = At_Beginning then
        (if pos = 0 then match_here db items string pos else None)
      else if a = At_End then
        (if pos = length string \<or> (pos + 1 = length string \<and> string ! pos = 10)
         then match_here db items string pos else None)
      else if pos + n \<le> length string \<and>
              list_all (atom_matches db a) (take n (drop pos string))
      then match_here db items string (pos + n)
      else None)"

fun first_match :: "unicode_db \<Rightarrow> re_item list \<Rightarrow> pystr \<Rightarrow> nat list \<Rightarrow> (nat \<times> nat) option" where
  "first_match db items string [] = None"
| "first_match db items string (k # ks) =
     (case match_here db items string k of
        Some e \<Rightarrow> Some (k, e)
      | None \<Rightarrow> first_match db items string ks)"

definition re_search :: "unicode_db \<Rightarrow> pystr \<Rightarrow> pystr \<Rightarrow> (nat \<times> nat) option option" where
  "re_search db pattern string =
     (case re_parse pattern of
        None \<Rightarrow> None
      | Some items \<Rightarrow> Some (first_match db items string [0..<Suc (length string)]))"


section \<open>The command line program\<close>

text \<open>
  \<open>main\<close> reads \<open>sys.argv\<close> and the lines of standard input and writes to standard
  output; \<open>stdout\<close> lists what \<open>print\<close> wrote and the prompts of \<open>input\<close>, in
  order. \<open>input\<close> raises EOFError when no line is left.
\<close>

record io_state =
  stdin :: "pystr list"
  stdout :: "pystr list"

definition print_line :: "pystr \<Rightarrow> io_state \<Rightarrow> io_state" where
  "print_line s io = io\<lparr>stdout := stdout io @ [s]\<rparr>"

definition py_input :: "pystr \<Rightarrow> io_state \<Rightarrow> (py_error + pystr) \<times> io_state" where
  "py_input prompt io =
     (case stdin io of
        [] \<Rightarrow> (Inl EOFError, io\<lparr>stdout := stdout io @ [prompt]\<rparr>)
      | line # rest \<Rightarrow> (Inr line, io\<lparr>stdin := rest, stdout := stdout io @ [prompt]\<rparr>))"

text \<open>The loop \<open>while True: test_input = input("> ") ...\<close>.\<close>

function read_test_strings :: "pystr list \<Rightarrow> io_state \<Rightarrow> (py_error + pystr list) \<times> io_state" where
  "read_test_strings test_strings io =
     (case py_input (py ''> '') io of
        (Inl e, io') \<Rightarrow> (Inl e, io')
      | (Inr test_input, io') \<Rightarrow>
          if test_input = [] then (Inr test_strings, io')
          else read_test_strings (test_strings @ [test_input]) io')"
  by pat_completeness auto
termination
  by (relation "measure (\<lambda>(ts, io). length (stdin io))")
     (auto simp: py_input_def split: list.splits)

declare read_test_strings.simps [simp del]

text \<open>
  The call \<open>converter.test_regex(regex_pattern, test_strings, full_match)\<close>. The method
  is declared \<open>def test_regex(self)\<close>: Python binds the arguments before it runs the
  body, and raises TypeError for the three that have no parameter.
\<close>

definition call_test_regex ::
  "pystr \<Rightarrow> pystr list \<Rightarrow> bool \<Rightarrow> py_error + (pystr \<times> bool \<times> pystr) list" where
  "call_test_regex regex_pattern test_strings full_match = Inl TypeError"

fun print_results :: "(pystr \<times> bool \<times> pystr) list \<Rightarrow> io_state \<Rightarrow> io_state" where
  "print_results [] io = io"
| "print_results ((string, matched, matched_text) # rest) io =
     print_results rest
       (if matched
        then print_line (string @ py '': MATCH (matched: '' @ [39] @ matched_text @ [39] @ py '')'') io
        else print_line (string @ py '': NO MATCH'') io)"

text \<open>\<open>answer.lower().startswith("y")\<close>.\<close>

definition starts_with_y :: "pystr \<Rightarrow> bool" where
  "starts_with_y line = (case line of [] \<Rightarrow> False | c # _ \<Rightarrow> c = of_char CHR ''y'' \<or> c = of_char CHR ''Y'')"

definition main :: "unicode_db \<Rightarrow> pystr list \<Rightarrow> io_state \<Rightarrow> (py_error + unit) \<times> io_state" where
  "main db argv io0 =
     (let io1 = print_line (py ''==================================='')
                  (print_line (py ''Convert String to Regular Expression'') io0) in
      case (if length argv > 1 then (getitem argv 1, io1)
            else py_input (py ''Enter string to convert to regex: '') io1) of
        (Inl e, io2) \<Rightarrow> (Inl e, io2)
      | (Inr input_string, io2) \<Rightarrow>
          (case string_to_regex db input_string True False of
             Inl e \<Rightarrow> (Inl e, io2)
           | Inr regex_pattern \<Rightarrow>
               (let io3 = print_line regex_pattern (print_line ([10] @ py ''Regex Pattern:'') io2) in
                case py_input ([10] @ py ''Test this pattern? (y/n): '') io3 of
                  (Inl e, io4) \<Rightarrow> (Inl e, io4)
                | (Inr answer, io4) \<Rightarrow>
                    if starts_with_y answer then
                      (case read_test_strings []
                              (print_line (py ''Enter test strings (empty line to finish):'') io4) of
                         (Inl e, io5) \<Rightarrow> (Inl e, io5)
                       | (Inr test_strings, io5) \<Rightarrow>
                           if test_strings \<noteq> [] then
                             (let io6 = print_line ([10] @ py ''Test Results:'') io5 in
                              case call_test_regex regex_pattern test_strings False of
                                Inl e \<Rightarrow> (Inl e, io6)
                              | Inr results \<Rightarrow> (Inr (), print_results results io6))
                           else (Inr (), io5))
                    else (Inr (), io4))))"

text \<open>The exit status of the interpreter: 1 after an exception that nothing catches.\<close>

definition exit_status :: "py_error + unit \<Rightarrow> nat" where
  "exit_status r = (case r of Inl e \<Rightarrow> 1 | Inr u \<Rightarrow> 0)"

section \<open>The scan as a function of the rest of the input\<close>

text \<open>
  For the proofs, the parts that the loop and the final flush still add when the scan
  stands before the rest \<open>cs\<close> of the input with the given \<open>in_quotes\<close> and
  \<open>quote_buffer\<close>. \<open>scan_loop_parts\<close> proves that the loop computes it.
\<close>

function parts_of :: "unicode_db \<Rightarrow> bool \<Rightarrow> pystr \<Rightarrow> pystr \<Rightarrow> pystr list" where
  "parts_of db inq buf [] = (if buf \<noteq> [] then [escape_all buf] else [])"
| "parts_of db inq buf (c # cs) =
     (if c = dquote then
        (if inq then escape_all buf # parts_of db False [] cs else parts_of db True buf cs)
      else if inq then parts_of db True (buf @ [c]) cs
      else if isspace db c then
        (if 1 < Suc (length (takeWhile (isspace db) cs))
         then [backslash] @ py ''s{'' @ str_int (Suc (length (takeWhile (isspace db) cs))) @ py ''}''
         else [backslash] @ py ''s'')
        # parts_of db False buf (dropWhile (isspace db) cs)
      else if isalpha db c then
        (if 1 < Suc (length (takeWhile (isalpha db) cs))
         then py ''[a-zA-Z]{'' @ str_int (Suc (length (takeWhile (isalpha db) cs))) @ py ''}''
         else py ''[a-zA-Z]'')
        # parts_of db False buf (dropWhile (isalpha db) cs)
      else if isdigit db c then
        (if 1 < Suc (length (takeWhile (isdigit db) cs))
         then [backslash] @ py ''d{'' @ str_int (Suc (length (takeWhile (isdigit db) cs))) @ py ''}''
         else [backslash] @ py ''d'')
        # parts_of db False buf (dropWhile (isdigit db) cs)
      else escape_char c # parts_of db False buf cs)"
  by pat_completeness auto
termination
  by (relation "measure (\<lambda>(db, inq, buf, cs). length cs)")
     (auto simp: length_dropWhile_le less_Suc_eq_le)

declare parts_of.simps(2) [simp del]

definition flush :: "scan_state \<Rightarrow> pystr list" where
  "flush st = (if quote_buffer st \<noteq> [] then parts st @ [escape_all (quote_buffer st)] else parts st)"

lemma drop_run: "drop (Suc (k + length (takeWhile p (drop (Suc k) s)))) s = dropWhile p (drop (Suc k) s)"
proof -
  have "drop (Suc (k + length (takeWhile p (drop (Suc k) s)))) s
        = drop (length (takeWhile p (drop (Suc k) s))) (drop (Suc k) s)"
    by (simp add: add.commute)
  also have "\<dots> = dropWhile p (drop (Suc k) s)"
    by (simp add: dropWhile_eq_drop)
  finally show ?thesis .
qed

lemma loop_body_parts:
  assumes "cur_i st < length s"
  shows "\<exists>st'. loop_body db s st = Inr st' \<and>
           parts st' @ parts_of db (in_quotes st') (quote_buffer st') (drop (cur_i st') s)
           = parts st @ parts_of db (in_quotes st) (quote_buffer st) (drop (cur_i st) s)"
proof -
  have d: "drop (cur_i st) s = s ! cur_i st # drop (Suc (cur_i st)) s"
    using assms by (simp add: Cons_nth_drop_Suc)
  have one: "dropWhile p xs = xs" if "takeWhile p xs = []" for p and xs :: pystr
    using that by (metis append_Nil takeWhile_dropWhile_id)
  show ?thesis
    using assms
    by (simp add: loop_body_def getitem_def count_run_1 run_len_def d parts_of.simps(2)
        drop_run escape_char_def one)
qed

lemma scan_loop_parts:
  "\<exists>st'. scan_loop db s st = Inr st' \<and>
     flush st' = parts st @ parts_of db (in_quotes st) (quote_buffer st) (drop (cur_i st) s)"
proof (induction db s st rule: scan_loop.induct)
  case (1 db s st)
  show ?case
  proof (cases "cur_i st < length s")
    case False
    then show ?thesis
      by (subst scan_loop.simps) (simp add: flush_def)
  next
    case True
    from loop_body_parts[OF True, of db] obtain st1 where
      b: "loop_body db s st = Inr st1" and
      p: "parts st1 @ parts_of db (in_quotes st1) (quote_buffer st1) (drop (cur_i st1) s)
           = parts st @ parts_of db (in_quotes st) (quote_buffer st) (drop (cur_i st) s)"
      by blast
    from 1[OF True b] p b True show ?thesis
      by (subst scan_loop.simps) simp
  qed
qed

lemma generic_parts_eq: "generic_parts db s = Inr (parts_of db False [] s)"
  using scan_loop_parts[of db s initial_state]
  by (auto simp: generic_parts_def flush_def initial_state_def)

text \<open>
  Joining the scans of two pieces. The scan of \<open>pre @ suf\<close> is the scan of \<open>pre\<close>
  followed by the scan of \<open>suf\<close> when \<open>pre\<close> closes every quote it opens and no run
  goes across the joint.
\<close>

definition same_class :: "unicode_db \<Rightarrow> nat \<Rightarrow> nat \<Rightarrow> bool" where
  "same_class db a b =
     (isspace db a \<and> isspace db b \<or> isalpha db a \<and> isalpha db b \<or> isdigit db a \<and> isdigit db b)"

lemma run_boundary:
  "suf = [] \<or> \<not> p (hd suf) \<or> (\<exists>x\<in>set cs. \<not> p x) \<Longrightarrow>
   takeWhile p (cs @ suf) = takeWhile p cs \<and> dropWhile p (cs @ suf) = dropWhile p cs @ suf"
proof (induction cs)
  case Nil
  then show ?case by (cases suf) auto
next
  case (Cons a cs)
  then show ?case by auto
qed

lemma count_dropWhile: "\<not> p q \<Longrightarrow> count_list (dropWhile p xs) q = count_list xs q"
  by (induction xs) auto

lemma last_dropWhile: "dropWhile p xs \<noteq> [] \<Longrightarrow> last (dropWhile p xs) = last xs"
  by (induction xs) (auto split: if_splits)

lemma run_continue:
  assumes pc: "p c"
    and same: "\<And>b. p (last (c # cs)) \<Longrightarrow> p b \<Longrightarrow> same_class db (last (c # cs)) b"
    and bnd: "suf = [] \<or> \<not> same_class db (last (c # cs)) (hd suf)"
  shows "takeWhile p (cs @ suf) = takeWhile p cs"
    and "dropWhile p (cs @ suf) = dropWhile p cs @ suf"
    and "dropWhile p cs = [] \<or> suf = [] \<or> \<not> same_class db (last (dropWhile p cs)) (hd suf)"
proof -
  have "suf = [] \<or> \<not> p (hd suf) \<or> (\<exists>x\<in>set cs. \<not> p x)"
  proof (cases "\<forall>x\<in>set cs. p x")
    case True
    with pc have "p (last (c # cs))" by (cases cs) auto
    with same bnd show ?thesis by blast
  next
    case False
    then show ?thesis by blast
  qed
  from run_boundary[OF this]
  show "takeWhile p (cs @ suf) = takeWhile p cs"
    and "dropWhile p (cs @ suf) = dropWhile p cs @ suf" by simp_all
  show "dropWhile p cs = [] \<or> suf = [] \<or> \<not> same_class db (last (dropWhile p cs)) (hd suf)"
  proof (cases "dropWhile p cs = []")
    case False
    then have "cs \<noteq> []" by auto
    with False bnd show ?thesis by (simp add: last_dropWhile)
  qed simp
qed

lemma parts_of_append:
  "classes_disjoint db \<Longrightarrow>
   (if inq then odd (count_list pre dquote) else even (count_list pre dquote) \<and> buf = []) \<Longrightarrow>
   pre = [] \<or> suf = [] \<or> \<not> same_class db (last pre) (hd suf) \<Longrightarrow>
   parts_of db inq buf (pre @ suf) = parts_of db inq buf pre @ parts_of db False [] suf"
proof (induction db inq buf pre rule: parts_of.induct)
  case (1 db inq buf)
  then show ?case by (simp split: if_splits)
next
  case (2 db inq buf c cs)
  note cd = \<open>classes_disjoint db\<close>
  have bnd: "suf = [] \<or> \<not> same_class db (last (c # cs)) (hd suf)"
    using "2.prems"(3) by simp
  have bnd': "cs = [] \<or> suf = [] \<or> \<not> same_class db (last cs) (hd suf)"
    using bnd by (cases cs) auto
  show ?case
  proof (cases "c = dquote")
    case True
    show ?thesis
    proof (cases inq)
      case True
      with \<open>c = dquote\<close> "2.prems"(2) have "even (count_list cs dquote)" by simp
      with "2.IH"(1)[OF \<open>c = dquote\<close> True cd _ bnd'] True \<open>c = dquote\<close>
      show ?thesis by (simp add: parts_of.simps(2))
    next
      case False
      with \<open>c = dquote\<close> "2.prems"(2) have "odd (count_list cs dquote)" by simp
      with "2.IH"(2)[OF \<open>c = dquote\<close> False cd _ bnd'] False \<open>c = dquote\<close>
      show ?thesis by (simp add: parts_of.simps(2))
    qed
  next
    case nq: False
    show ?thesis
    proof (cases inq)
      case True
      with nq "2.prems"(2) have "odd (count_list cs dquote)" by simp
      with "2.IH"(3)[OF nq True cd _ bnd'] True nq
      show ?thesis by (simp add: parts_of.simps(2))
    next
      case out: False
      with nq "2.prems"(2) have ev: "even (count_list cs dquote)" and buf: "buf = []" by simp_all
      from cd have ndq: "\<not> isspace db dquote" "\<not> isalpha db dquote" "\<not> isdigit db dquote"
        by (auto simp: classes_disjoint_def)
      show ?thesis
      proof (cases "isspace db c")
        case sp: True
        note r = run_continue[of "isspace db", OF sp _ bnd]
        have st: "if False then odd (count_list (dropWhile (isspace db) cs) dquote)
                  else even (count_list (dropWhile (isspace db) cs) dquote) \<and> buf = []"
          using ev buf ndq by (simp add: count_dropWhile)
        from "2.IH"(4)[OF nq out sp cd st r(3)] r(1,2) nq out sp
        show ?thesis by (simp add: parts_of.simps(2) same_class_def)
      next
        case nsp: False
        show ?thesis
        proof (cases "isalpha db c")
          case al: True
          note r = run_continue[of "isalpha db", OF al _ bnd]
          have st: "if False then odd (count_list (dropWhile (isalpha db) cs) dquote)
                    else even (count_list (dropWhile (isalpha db) cs) dquote) \<and> buf = []"
            using ev buf ndq by (simp add: count_dropWhile)
          from "2.IH"(5)[OF nq out nsp al cd st r(3)] r(1,2) nq out nsp al
          show ?thesis by (simp add: parts_of.simps(2) same_class_def)
        next
          case nal: False
          show ?thesis
          proof (cases "isdigit db c")
            case di: True
            note r = run_continue[of "isdigit db", OF di _ bnd]
            have st: "if False then odd (count_list (dropWhile (isdigit db) cs) dquote)
                      else even (count_list (dropWhile (isdigit db) cs) dquote) \<and> buf = []"
              using ev buf ndq by (simp add: count_dropWhile)
            from "2.IH"(6)[OF nq out nsp nal di cd st r(3)] r(1,2) nq out nsp nal di
            show ?thesis by (simp add: parts_of.simps(2) same_class_def)
          next
            case ndi: False
            have st: "if False then odd (count_list cs dquote)
                      else even (count_list cs dquote) \<and> buf = []"
              using ev buf by simp
            from "2.IH"(7)[OF nq out nsp nal ndi cd st bnd'] nq out nsp nal ndi
            show ?thesis by (simp add: parts_of.simps(2))
          qed
        qed
      qed
    qed
  qed
qed

text \<open>Facts for evaluating the definitions on concrete strings.\<close>

lemma str_int_small: "n < 10 \<Longrightarrow> str_int n = [48 + n]"
  by (simp add: str_int.simps)

lemma agrees_latin1D:
  "agrees_latin1 db \<Longrightarrow> c < 256 \<Longrightarrow> isspace db c = latin1_isspace c"
  "agrees_latin1 db \<Longrightarrow> c < 256 \<Longrightarrow> isalpha db c = latin1_isalpha c"
  "agrees_latin1 db \<Longrightarrow> c < 256 \<Longrightarrow> isdigit db c = latin1_isdigit c"
  "agrees_latin1 db \<Longrightarrow> c < 256 \<Longrightarrow> isdecimal db c = latin1_isdecimal c"
  by (simp_all add: agrees_latin1_def)

lemmas latin1_defs = latin1_isspace_def latin1_isalpha_def latin1_isdigit_def latin1_isdecimal_def

lemmas eval_simps = py_def backslash_def dquote_def regex_special_chars_def escape_all_def
  escape_char_def parts_of.simps(2) str_int_small

lemma classes_disjoint_latin1: "classes_disjoint latin1_db"
  by (auto simp: classes_disjoint_def latin1_db_def latin1_defs dquote_def)

lemma agrees_latin1_latin1: "agrees_latin1 latin1_db"
  by (simp add: agrees_latin1_def latin1_db_def)

lemma run_whole:
  "list_all p cs \<Longrightarrow> rest = [] \<or> \<not> p (hd rest) \<Longrightarrow>
   takeWhile p (cs @ rest) = cs \<and> dropWhile p (cs @ rest) = rest"
proof (induction cs)
  case Nil
  then show ?case by (cases rest) auto
next
  case (Cons a cs)
  then show ?case by simp
qed

lemma parts_of_join:
  assumes "classes_disjoint db" and "quotes_closed pre"
    and "pre = [] \<or> suf = [] \<or> \<not> same_class db (last pre) (hd suf)"
  shows "parts_of db False [] (pre @ suf) = parts_of db False [] pre @ parts_of db False [] suf"
  using parts_of_append[of db False pre "[]" suf] assms by (simp add: quotes_closed_def)

lemma space_run_parts:
  assumes cd: "classes_disjoint db" and qc: "quotes_closed pre"
    and mr: "maximal_run (isspace db) pre run rest"
  shows "parts_of db False [] (pre @ run @ rest) =
         parts_of db False [] pre @
         [if 1 < length run then [backslash] @ py ''s{'' @ str_int (length run) @ py ''}''
          else [backslash] @ py ''s''] @
         parts_of db False [] rest"
proof -
  from mr obtain c cs where run: "run = c # cs" and c: "isspace db c" and cs: "list_all (isspace db) cs"
    and l: "pre = [] \<or> \<not> isspace db (last pre)" and r: "rest = [] \<or> \<not> isspace db (hd rest)"
    by (cases run) (auto simp: maximal_run_def)
  from cd c have c': "c \<noteq> dquote" "\<not> isalpha db c" "\<not> isdigit db c"
    by (auto simp: classes_disjoint_def)
  from l c c' have "pre = [] \<or> \<not> same_class db (last pre) (hd (run @ rest))"
    by (auto simp: run same_class_def)
  then have "parts_of db False [] (pre @ run @ rest)
             = parts_of db False [] pre @ parts_of db False [] (run @ rest)"
    using parts_of_join[OF cd qc, of "run @ rest"] by blast
  moreover from run_whole[OF cs r] c c'
  have "parts_of db False [] (run @ rest) =
        [if 1 < length run then [backslash] @ py ''s{'' @ str_int (length run) @ py ''}''
          else [backslash] @ py ''s''] @ parts_of db False [] rest"
    by (simp add: run parts_of.simps(2))
  ultimately show ?thesis by simp
qed

lemma alpha_run_parts:
  assumes cd: "classes_disjoint db" and qc: "quotes_closed pre"
    and mr: "maximal_run (isalpha db) pre run rest"
  shows "parts_of db False [] (pre @ run @ rest) =
         parts_of db False [] pre @
         [if 1 < length run then py ''[a-zA-Z]{'' @ str_int (length run) @ py ''}''
          else py ''[a-zA-Z]''] @
         parts_of db False [] rest"
proof -
  from mr obtain c cs where run: "run = c # cs" and c: "isalpha db c" and cs: "list_all (isalpha db) cs"
    and l: "pre = [] \<or> \<not> isalpha db (last pre)" and r: "rest = [] \<or> \<not> isalpha db (hd rest)"
    by (cases run) (auto simp: maximal_run_def)
  from cd c have c': "c \<noteq> dquote" "\<not> isspace db c" "\<not> isdigit db c"
    by (auto simp: classes_disjoint_def)
  from l c c' have "pre = [] \<or> \<not> same_class db (last pre) (hd (run @ rest))"
    by (auto simp: run same_class_def)
  then have "parts_of db False [] (pre @ run @ rest)
             = parts_of db False [] pre @ parts_of db False [] (run @ rest)"
    using parts_of_join[OF cd qc, of "run @ rest"] by blast
  moreover from run_whole[OF cs r] c c'
  have "parts_of db False [] (run @ rest) =
        [if 1 < length run then py ''[a-zA-Z]{'' @ str_int (length run) @ py ''}''
          else py ''[a-zA-Z]''] @ parts_of db False [] rest"
    by (simp add: run parts_of.simps(2))
  ultimately show ?thesis by simp
qed

lemma digit_run_parts:
  assumes cd: "classes_disjoint db" and qc: "quotes_closed pre"
    and mr: "maximal_run (isdigit db) pre run rest"
  shows "parts_of db False [] (pre @ run @ rest) =
         parts_of db False [] pre @
         [if 1 < length run then [backslash] @ py ''d{'' @ str_int (length run) @ py ''}''
          else [backslash] @ py ''d''] @
         parts_of db False [] rest"
proof -
  from mr obtain c cs where run: "run = c # cs" and c: "isdigit db c" and cs: "list_all (isdigit db) cs"
    and l: "pre = [] \<or> \<not> isdigit db (last pre)" and r: "rest = [] \<or> \<not> isdigit db (hd rest)"
    by (cases run) (auto simp: maximal_run_def)
  from cd c have c': "c \<noteq> dquote" "\<not> isspace db c" "\<not> isalpha db c"
    by (auto simp: classes_disjoint_def)
  from l c c' have "pre = [] \<or> \<not> same_class db (last pre) (hd (run @ rest))"
    by (auto simp: run same_class_def)
  then have "parts_of db False [] (pre @ run @ rest)
             = parts_of db False [] pre @ parts_of db False [] (run @ rest)"
    using parts_of_join[OF cd qc, of "run @ rest"] by blast
  moreover from run_whole[OF cs r] c c'
  have "parts_of db False [] (run @ rest) =
        [if 1 < length run then [backslash] @ py ''d{'' @ str_int (length run) @ py ''}''
          else [backslash] @ py ''d''] @ parts_of db False [] rest"
    by (simp add: run parts_of.simps(2))
  ultimately show ?thesis by simp
qed

lemma parts_of_in_quote_closed:
  "dquote \<notin> set span \<Longrightarrow>
   parts_of db True buf (span @ dquote # rest) = escape_all (buf @ span) # parts_of db False [] rest"
  by (induction span arbitrary: buf) (auto simp: parts_of.simps(2))

lemma parts_of_in_quote_open:
  "dquote \<notin> set span \<Longrightarrow>
   parts_of db True buf span = (if buf @ span \<noteq> [] then [escape_all (buf @ span)] else [])"
  by (induction span arbitrary: buf) (auto simp: parts_of.simps(2))

lemma quoted_parts:
  assumes cd: "classes_disjoint db" and qc: "quotes_closed pre" and sp: "dquote \<notin> set span"
  shows "parts_of db False [] (pre @ [dquote] @ span @ [dquote] @ rest) =
         parts_of db False [] pre @ [escape_all span] @ parts_of db False [] rest"
    and "concat (parts_of db False [] (pre @ [dquote] @ span)) =
         concat (parts_of db False [] pre) @ escape_all span"
proof -
  from cd have "\<not> same_class db x dquote" for x
    by (auto simp: classes_disjoint_def same_class_def)
  then have j: "parts_of db False [] (pre @ dquote # suf)
             = parts_of db False [] pre @ parts_of db False [] (dquote # suf)" for suf
    using parts_of_join[OF cd qc, of "dquote # suf"] by simp
  show "parts_of db False [] (pre @ [dquote] @ span @ [dquote] @ rest) =
         parts_of db False [] pre @ [escape_all span] @ parts_of db False [] rest"
    using j[of "span @ dquote # rest"] parts_of_in_quote_closed[OF sp, of db "[]" rest]
    by (simp add: parts_of.simps(2))
  show "concat (parts_of db False [] (pre @ [dquote] @ span)) =
         concat (parts_of db False [] pre) @ escape_all span"
    using j[of span] parts_of_in_quote_open[OF sp, of db "[]"]
    by (simp add: parts_of.simps(2) escape_all_def)
qed

lemma str_int_digits: "set (str_int n) \<subseteq> {48..57}"
proof (induction n rule: str_int.induct)
  case (1 n)
  show ?case
  proof (cases "n < 10")
    case True
    then show ?thesis by (subst str_int.simps) simp
  next
    case False
    have "n mod 10 < 10" by simp
    then have "48 + n mod 10 \<in> {48..57}" by (simp del: mod_less_divisor)
    with 1[OF False] False show ?thesis by (subst str_int.simps) simp
  qed
qed

lemma no_dquote_str_int: "dquote \<notin> set (str_int n)"
  using str_int_digits[of n] by (auto simp: dquote_def)

lemma no_dquote_escape: "dquote \<notin> set buf \<Longrightarrow> dquote \<notin> set (escape_all buf)"
  by (induction buf) (auto simp: escape_all_def escape_char_def dquote_def backslash_def)

lemma no_dquote_parts:
  "dquote \<notin> set buf \<Longrightarrow> dquote \<notin> set (concat (parts_of db inq buf s))"
proof (induction db inq buf s rule: parts_of.induct)
  case (1 db inq buf)
  then show ?case by (simp add: no_dquote_escape)
next
  case (2 db inq buf c cs)
  have tok: "dquote \<notin> set (py ''s{'')" "dquote \<notin> set (py ''s'')" "dquote \<notin> set (py ''d{'')" "dquote \<notin> set (py ''d'')"
     "dquote \<notin> set (py ''[a-zA-Z]{'')" "dquote \<notin> set (py ''[a-zA-Z]'')" "dquote \<notin> set (py ''}'')"
     "dquote \<noteq> backslash"
    by (simp_all add: py_def dquote_def backslash_def)
  have e: "c \<noteq> dquote \<Longrightarrow> dquote \<notin> set (escape_char c)"
    by (auto simp: escape_char_def dquote_def backslash_def)
  from 2 show ?case
    by (subst parts_of.simps(2)) (simp add: no_dquote_escape no_dquote_str_int tok e)
qed

lemmas re_eval = re_search_def parse_atom_def parse_repeat_def is_ascii_digit_def
  int_of_digits_def MAXREPEAT_def upt_rec

lemma string_to_regex_generic:
  "string_to_regex db s True False = Inr (concat (parts_of db False [] s))"
  by (simp add: string_to_regex_def generic_parts_eq)

section \<open>The claims\<close>

text \<open>
  C8. \<open>string_to_regex\<close> is total: for every classifier, every input string and both
  flags it returns a pattern and raises nothing, and every iteration of the loop that
  starts with the cursor inside the input returns with the cursor strictly further on and
  at most at the end of the input.
\<close>

theorem string_to_regex_total:
  "(\<exists>p. string_to_regex db s g f = Inr p) \<and>
   (\<forall>st. cur_i st < length s \<longrightarrow>
      (\<exists>st'. loop_body db s st = Inr st' \<and> cur_i st < cur_i st' \<and> cur_i st' \<le> length s))"
proof
  show "\<exists>p. string_to_regex db s g f = Inr p"
    by (simp add: string_to_regex_def generic_parts_eq)
  show "\<forall>st. cur_i st < length s \<longrightarrow>
      (\<exists>st'. loop_body db s st = Inr st' \<and> cur_i st < cur_i st' \<and> cur_i st' \<le> length s)"
    using loop_body_total by blast
qed

theorem string_to_regex_total_witness:
  "(\<exists>p. string_to_regex latin1_db (py ''a  1'') True True = Inr p) \<and>
   cur_i (initial_state\<lparr>cur_i := 1\<rparr>) < length (py ''a  1'') \<and>
   (\<exists>st'. loop_body latin1_db (py ''a  1'') (initial_state\<lparr>cur_i := 1\<rparr>) = Inr st' \<and>
      cur_i (initial_state\<lparr>cur_i := 1\<rparr>) < cur_i st' \<and> cur_i st' \<le> length (py ''a  1''))"
proof -
  have h: "cur_i (initial_state\<lparr>cur_i := 1\<rparr>) < length (py ''a  1'')"
    by (simp add: py_def)
  from string_to_regex_total[of latin1_db "py ''a  1''" True True] h
  show ?thesis by blast
qed

text \<open>
  C5. With \<open>full_match\<close> the result is the result without it, between the anchors
  \<open>^\<close> and \<open>$\<close>, for every input and either mode.
\<close>

theorem anchoring:
  "\<exists>p. string_to_regex db s g False = Inr p \<and>
       string_to_regex db s g True = Inr (py ''^'' @ p @ py ''$'')"
  by (simp add: string_to_regex_def generic_parts_eq)

text \<open>
  C4. In literal mode the result is the concatenation, in order, of a backslash and the
  character for each character among \<open>. ^ $ * + ? ( ) [ ] { } |\<close> and the backslash
  (\<open>CHR 0x5C\<close>), and of the character alone for each other one; so a string without
  these characters is returned unchanged.
\<close>

theorem literal_mode:
  "string_to_regex db s False False =
     Inr (concat (map (\<lambda>c. if c \<in> of_char ` {CHR ''.'', CHR ''^'', CHR ''$'', CHR ''*'', CHR ''+'',
                                 CHR ''?'', CHR ''('', CHR '')'', CHR ''['', CHR '']'', CHR ''{'',
                                 CHR ''}'', CHR ''|'', CHR 0x5C}
                           then backslash # [c] else [c]) s)) \<and>
   ((\<forall>c\<in>set s. c \<notin> of_char ` {CHR ''.'', CHR ''^'', CHR ''$'', CHR ''*'', CHR ''+'',
                                 CHR ''?'', CHR ''('', CHR '')'', CHR ''['', CHR '']'', CHR ''{'',
                                 CHR ''}'', CHR ''|'', CHR 0x5C})
     \<longrightarrow> string_to_regex db s False False = Inr s)"
proof -
  let ?S = "of_char ` {CHR ''.'', CHR ''^'', CHR ''$'', CHR ''*'', CHR ''+'',
                                 CHR ''?'', CHR ''('', CHR '')'', CHR ''['', CHR '']'', CHR ''{'',
                                 CHR ''}'', CHR ''|'', CHR 0x5C} :: nat set"
  have S: "set regex_special_chars = ?S"
    by (simp add: regex_special_chars_def py_def backslash_def)
  have e: "escape_all s = concat (map (\<lambda>c. if c \<in> ?S then backslash # [c] else [c]) s)"
    unfolding escape_all_def escape_char_def S ..
  have id: "(\<forall>c\<in>set s. c \<notin> ?S) \<Longrightarrow> concat (map (\<lambda>c. if c \<in> ?S then backslash # [c] else [c]) s) = s"
    by (induction s) simp_all
  show ?thesis
    using e id by (simp add: string_to_regex_def)
qed

theorem literal_mode_witness:
  "set (py ''Invoice No 12'') \<inter>
     of_char ` {CHR ''.'', CHR ''^'', CHR ''$'', CHR ''*'', CHR ''+'',
                CHR ''?'', CHR ''('', CHR '')'', CHR ''['', CHR '']'', CHR ''{'',
                CHR ''}'', CHR ''|'', CHR 0x5C} = {} \<and>
   string_to_regex latin1_db (py ''Invoice No 12'') False False = Inr (py ''Invoice No 12'')"
proof -
  have h: "\<forall>c\<in>set (py ''Invoice No 12''). c \<notin> of_char ` {CHR ''.'', CHR ''^'', CHR ''$'', CHR ''*'', CHR ''+'',
                CHR ''?'', CHR ''('', CHR '')'', CHR ''['', CHR '']'', CHR ''{'',
                CHR ''}'', CHR ''|'', CHR 0x5C}"
    by (simp add: py_def)
  from literal_mode[of latin1_db "py ''Invoice No 12''"] h
  have "string_to_regex latin1_db (py ''Invoice No 12'') False False = Inr (py ''Invoice No 12'')"
    by blast
  moreover from h have "set (py ''Invoice No 12'') \<inter>
     of_char ` {CHR ''.'', CHR ''^'', CHR ''$'', CHR ''*'', CHR ''+'',
                CHR ''?'', CHR ''('', CHR '')'', CHR ''['', CHR '']'', CHR ''{'',
                CHR ''}'', CHR ''|'', CHR 0x5C} = {}"
    by blast
  ultimately show ?thesis by blast
qed

text \<open>
  C2. In generic mode a maximal run of letters outside quotes becomes \<open>[a-zA-Z]\<close> when
  its length is 1 and \<open>[a-zA-Z]{n}\<close> when its length is \<open>n > 1\<close>, and a maximal run of
  characters that \<open>str.isdigit\<close> accepts becomes \<open>\d\<close> or \<open>\d{n}\<close> likewise, between
  the patterns of what stands before and after the run. For \<open>aaa123\<close> the pattern is
  \<open>[a-zA-Z]{3}\d{3}\<close>; with the anchors it matches \<open>aaa123\<close> from 0 to 6 and does
  not match \<open>aa123\<close>.
\<close>

theorem run_length_fidelity:
  "(classes_disjoint db \<and> quotes_closed pre \<and> maximal_run (isalpha db) pre run rest \<longrightarrow>
      (\<exists>p r. string_to_regex db pre True False = Inr p \<and>
             string_to_regex db rest True False = Inr r \<and>
             string_to_regex db (pre @ run @ rest) True False =
               Inr (p @ (if length run = 1 then py ''[a-zA-Z]''
                         else py ''[a-zA-Z]{'' @ str_int (length run) @ py ''}'') @ r))) \<and>
   (classes_disjoint db \<and> quotes_closed pre \<and> maximal_run (isdigit db) pre run rest \<longrightarrow>
      (\<exists>p r. string_to_regex db pre True False = Inr p \<and>
             string_to_regex db rest True False = Inr r \<and>
             string_to_regex db (pre @ run @ rest) True False =
               Inr (p @ (if length run = 1 then [backslash] @ py ''d''
                         else [backslash] @ py ''d{'' @ str_int (length run) @ py ''}'') @ r))) \<and>
   (agrees_latin1 db \<longrightarrow>
      string_to_regex db (py ''aaa123'') True False =
        Inr (py ''[a-zA-Z]{3}'' @ [backslash] @ py ''d{3}'') \<and>
      string_to_regex db (py ''aaa123'') True True =
        Inr (py ''^[a-zA-Z]{3}'' @ [backslash] @ py ''d{3}$'') \<and>
      re_search db (py ''^[a-zA-Z]{3}'' @ [backslash] @ py ''d{3}$'') (py ''aaa123'')
        = Some (Some (0, 6)) \<and>
      re_search db (py ''^[a-zA-Z]{3}'' @ [backslash] @ py ''d{3}$'') (py ''aa123'')
        = Some None)"
proof (intro conjI impI)
  assume h: "classes_disjoint db \<and> quotes_closed pre \<and> maximal_run (isalpha db) pre run rest"
  then have "run \<noteq> []" by (simp add: maximal_run_def)
  then have l: "Suc 0 < length run \<or> length run = Suc 0" by (cases run) auto
  from h show "\<exists>p r. string_to_regex db pre True False = Inr p \<and>
             string_to_regex db rest True False = Inr r \<and>
             string_to_regex db (pre @ run @ rest) True False =
               Inr (p @ (if length run = 1 then py ''[a-zA-Z]''
                         else py ''[a-zA-Z]{'' @ str_int (length run) @ py ''}'') @ r)"
    using l by (auto simp: string_to_regex_generic alpha_run_parts)
next
  assume h: "classes_disjoint db \<and> quotes_closed pre \<and> maximal_run (isdigit db) pre run rest"
  then have "run \<noteq> []" by (simp add: maximal_run_def)
  then have l: "Suc 0 < length run \<or> length run = Suc 0" by (cases run) auto
  from h show "\<exists>p r. string_to_regex db pre True False = Inr p \<and>
             string_to_regex db rest True False = Inr r \<and>
             string_to_regex db (pre @ run @ rest) True False =
               Inr (p @ (if length run = 1 then [backslash] @ py ''d''
                         else [backslash] @ py ''d{'' @ str_int (length run) @ py ''}'') @ r)"
    using l by (auto simp: string_to_regex_generic digit_run_parts)
next
  assume a: "agrees_latin1 db"
  then show "string_to_regex db (py ''aaa123'') True False =
        Inr (py ''[a-zA-Z]{3}'' @ [backslash] @ py ''d{3}'')"
    by (simp add: string_to_regex_def generic_parts_eq eval_simps agrees_latin1D latin1_defs)
  from a show "string_to_regex db (py ''aaa123'') True True =
        Inr (py ''^[a-zA-Z]{3}'' @ [backslash] @ py ''d{3}$'')"
    by (simp add: string_to_regex_def generic_parts_eq eval_simps agrees_latin1D latin1_defs)
  from a show "re_search db (py ''^[a-zA-Z]{3}'' @ [backslash] @ py ''d{3}$'') (py ''aaa123'')
        = Some (Some (0, 6))"
    by (simp add: re_eval eval_simps agrees_latin1D latin1_defs)
  from a show "re_search db (py ''^[a-zA-Z]{3}'' @ [backslash] @ py ''d{3}$'') (py ''aa123'')
        = Some None"
    by (simp add: re_eval eval_simps agrees_latin1D latin1_defs)
qed

theorem run_length_fidelity_witness:
  "classes_disjoint latin1_db \<and> quotes_closed (py ''INV-'') \<and>
   maximal_run (isalpha latin1_db) (py ''INV-'') (py ''ab'') (py ''12'') \<and>
   (\<exists>p r. string_to_regex latin1_db (py ''INV-'') True False = Inr p \<and>
          string_to_regex latin1_db (py ''12'') True False = Inr r \<and>
          string_to_regex latin1_db (py ''INV-'' @ py ''ab'' @ py ''12'') True False =
            Inr (p @ py ''[a-zA-Z]{2}'' @ r)) \<and>
   maximal_run (isdigit latin1_db) (py ''INV-'') (py ''7'') (py ''ab'') \<and>
   (\<exists>p r. string_to_regex latin1_db (py ''INV-'') True False = Inr p \<and>
          string_to_regex latin1_db (py ''ab'') True False = Inr r \<and>
          string_to_regex latin1_db (py ''INV-'' @ py ''7'' @ py ''ab'') True False =
            Inr (p @ [backslash] @ py ''d'' @ r)) \<and>
   agrees_latin1 latin1_db \<and>
   re_search latin1_db (py ''^[a-zA-Z]{3}'' @ [backslash] @ py ''d{3}$'') (py ''aa123'') = Some None"
proof -
  have h1: "classes_disjoint latin1_db" by (rule classes_disjoint_latin1)
  have h2: "quotes_closed (py ''INV-'')" by (simp add: quotes_closed_def py_def dquote_def)
  have h3: "maximal_run (isalpha latin1_db) (py ''INV-'') (py ''ab'') (py ''12'')"
    by (simp add: maximal_run_def py_def latin1_db_def latin1_defs)
  have h4: "maximal_run (isdigit latin1_db) (py ''INV-'') (py ''7'') (py ''ab'')"
    by (simp add: maximal_run_def py_def latin1_db_def latin1_defs)
  have h5: "agrees_latin1 latin1_db" by (rule agrees_latin1_latin1)
  have s: "str_int (Suc (Suc 0)) = [50]" using str_int_small[of 2] by (simp add: numeral_2_eq_2)
  from run_length_fidelity[of latin1_db "py ''INV-''" "py ''ab''" "py ''12''"] h1 h2 h3
  have a: "\<exists>p r. string_to_regex latin1_db (py ''INV-'') True False = Inr p \<and>
          string_to_regex latin1_db (py ''12'') True False = Inr r \<and>
          string_to_regex latin1_db (py ''INV-'' @ py ''ab'' @ py ''12'') True False =
            Inr (p @ py ''[a-zA-Z]{2}'' @ r)"
    by (simp add: s py_def)
  from run_length_fidelity[of latin1_db "py ''INV-''" "py ''7''" "py ''ab''"] h1 h2 h4
  have b: "\<exists>p r. string_to_regex latin1_db (py ''INV-'') True False = Inr p \<and>
          string_to_regex latin1_db (py ''ab'') True False = Inr r \<and>
          string_to_regex latin1_db (py ''INV-'' @ py ''7'' @ py ''ab'') True False =
            Inr (p @ [backslash] @ py ''d'' @ r)"
    by (simp add: py_def)
  from run_length_fidelity[of latin1_db] h5
  have c: "re_search latin1_db (py ''^[a-zA-Z]{3}'' @ [backslash] @ py ''d{3}$'') (py ''aa123'') = Some None"
    by blast
  from h1 h2 h3 h4 h5 a b c show ?thesis by blast
qed

text \<open>
  The runs are those of \<open>isdigit\<close>, not of the decimal digits. The superscript two
  (code point 178) is a digit for \<open>str.isdigit\<close> and no decimal digit, so in the string
  of \<open>1\<close> and the superscript two the decimal digits form a maximal run of length 1,
  and yet the pattern is \<open>\d{2}\<close>: neither the bare \<open>\d\<close> followed by the pattern
  of the rest, nor a pattern that matches the string.
\<close>

theorem run_length_fidelity_counterexample:
  "isdecimal latin1_db 49 \<and> \<not> isdecimal latin1_db 178 \<and> isdigit latin1_db 178 \<and>
   maximal_run (isdecimal latin1_db) [] [49] [178] \<and>
   string_to_regex latin1_db [] True False = Inr [] \<and>
   string_to_regex latin1_db [178] True False = Inr ([backslash] @ py ''d'') \<and>
   string_to_regex latin1_db ([] @ [49] @ [178]) True False = Inr ([backslash] @ py ''d{2}'') \<and>
   [backslash] @ py ''d{2}'' \<noteq> [] @ ([backslash] @ py ''d'') @ ([backslash] @ py ''d'') \<and>
   re_search latin1_db ([backslash] @ py ''d{2}'') [49, 178] = Some None"
proof -
  have s: "str_int (Suc (Suc 0)) = [50]"
    using str_int_small[of 2] by (simp add: numeral_2_eq_2)
  show ?thesis
    by (simp add: string_to_regex_def generic_parts_eq eval_simps latin1_db_def latin1_defs s
        maximal_run_def re_eval)
qed

text \<open>
  C3. In generic mode a maximal run of whitespace outside quotes becomes \<open>\s\<close> when its
  length is 1 and \<open>\s{n}\<close> when its length is \<open>n > 1\<close>, between the patterns of what
  stands before and after it: the length is kept. For two spaces (code point 32) the
  anchored pattern is \<open>^\s{2}$\<close>, which matches two spaces and neither one nor three;
  for \<open>a\<close>, two spaces and \<open>b\<close> it is \<open>^[a-zA-Z]\s{2}[a-zA-Z]$\<close>, which matches
  that string and not the ones with one or three spaces between the letters.
\<close>

theorem whitespace_exactness:
  "(classes_disjoint db \<and> quotes_closed pre \<and> maximal_run (isspace db) pre run rest \<longrightarrow>
      (\<exists>p r. string_to_regex db pre True False = Inr p \<and>
             string_to_regex db rest True False = Inr r \<and>
             string_to_regex db (pre @ run @ rest) True False =
               Inr (p @ (if length run = 1 then [backslash] @ py ''s''
                         else [backslash] @ py ''s{'' @ str_int (length run) @ py ''}'') @ r))) \<and>
   (agrees_latin1 db \<longrightarrow>
      string_to_regex db [32, 32] True True = Inr (py ''^'' @ [backslash] @ py ''s{2}$'') \<and>
      re_search db (py ''^'' @ [backslash] @ py ''s{2}$'') [32, 32] = Some (Some (0, 2)) \<and>
      re_search db (py ''^'' @ [backslash] @ py ''s{2}$'') [32] = Some None \<and>
      re_search db (py ''^'' @ [backslash] @ py ''s{2}$'') [32, 32, 32] = Some None \<and>
      string_to_regex db (py ''a  b'') True True =
        Inr (py ''^[a-zA-Z]'' @ [backslash] @ py ''s{2}[a-zA-Z]$'') \<and>
      re_search db (py ''^[a-zA-Z]'' @ [backslash] @ py ''s{2}[a-zA-Z]$'') (py ''a  b'')
        = Some (Some (0, 4)) \<and>
      re_search db (py ''^[a-zA-Z]'' @ [backslash] @ py ''s{2}[a-zA-Z]$'') (py ''a b'')
        = Some None \<and>
      re_search db (py ''^[a-zA-Z]'' @ [backslash] @ py ''s{2}[a-zA-Z]$'') (py ''a   b'')
        = Some None)"
proof (intro conjI impI)
  assume h: "classes_disjoint db \<and> quotes_closed pre \<and> maximal_run (isspace db) pre run rest"
  then have "run \<noteq> []" by (simp add: maximal_run_def)
  then have l: "Suc 0 < length run \<or> length run = Suc 0" by (cases run) auto
  from h show "\<exists>p r. string_to_regex db pre True False = Inr p \<and>
             string_to_regex db rest True False = Inr r \<and>
             string_to_regex db (pre @ run @ rest) True False =
               Inr (p @ (if length run = 1 then [backslash] @ py ''s''
                         else [backslash] @ py ''s{'' @ str_int (length run) @ py ''}'') @ r)"
    using l by (auto simp: string_to_regex_generic space_run_parts)
next
  assume a: "agrees_latin1 db"
  have s: "str_int (Suc (Suc 0)) = [50]"
    using str_int_small[of 2] by (simp add: numeral_2_eq_2)
  from a show "string_to_regex db [32, 32] True True = Inr (py ''^'' @ [backslash] @ py ''s{2}$'')"
    by (simp add: string_to_regex_def generic_parts_eq eval_simps agrees_latin1D latin1_defs s)
  from a show "re_search db (py ''^'' @ [backslash] @ py ''s{2}$'') [32, 32] = Some (Some (0, 2))"
    by (simp add: re_eval eval_simps agrees_latin1D latin1_defs)
  from a show "re_search db (py ''^'' @ [backslash] @ py ''s{2}$'') [32] = Some None"
    by (simp add: re_eval eval_simps agrees_latin1D latin1_defs)
  from a show "re_search db (py ''^'' @ [backslash] @ py ''s{2}$'') [32, 32, 32] = Some None"
    by (simp add: re_eval eval_simps agrees_latin1D latin1_defs)
  from a show "string_to_regex db (py ''a  b'') True True =
        Inr (py ''^[a-zA-Z]'' @ [backslash] @ py ''s{2}[a-zA-Z]$'')"
    by (simp add: string_to_regex_def generic_parts_eq eval_simps agrees_latin1D latin1_defs s)
  from a show "re_search db (py ''^[a-zA-Z]'' @ [backslash] @ py ''s{2}[a-zA-Z]$'') (py ''a  b'')
        = Some (Some (0, 4))"
    by (simp add: re_eval eval_simps agrees_latin1D latin1_defs)
  from a show "re_search db (py ''^[a-zA-Z]'' @ [backslash] @ py ''s{2}[a-zA-Z]$'') (py ''a b'')
        = Some None"
    by (simp add: re_eval eval_simps agrees_latin1D latin1_defs)
  from a show "re_search db (py ''^[a-zA-Z]'' @ [backslash] @ py ''s{2}[a-zA-Z]$'') (py ''a   b'')
        = Some None"
    by (simp add: re_eval eval_simps agrees_latin1D latin1_defs)
qed

theorem whitespace_exactness_witness:
  "classes_disjoint latin1_db \<and> quotes_closed (py ''No:'') \<and>
   maximal_run (isspace latin1_db) (py ''No:'') [32, 9, 32] (py ''7'') \<and>
   (\<exists>p r. string_to_regex latin1_db (py ''No:'') True False = Inr p \<and>
          string_to_regex latin1_db (py ''7'') True False = Inr r \<and>
          string_to_regex latin1_db (py ''No:'' @ [32, 9, 32] @ py ''7'') True False =
            Inr (p @ [backslash] @ py ''s{3}'' @ r)) \<and>
   agrees_latin1 latin1_db \<and>
   re_search latin1_db (py ''^'' @ [backslash] @ py ''s{2}$'') [32, 32, 32] = Some None"
proof -
  have h1: "classes_disjoint latin1_db" by (rule classes_disjoint_latin1)
  have h2: "quotes_closed (py ''No:'')" by (simp add: quotes_closed_def py_def dquote_def)
  have h3: "maximal_run (isspace latin1_db) (py ''No:'') [32, 9, 32] (py ''7'')"
    by (simp add: maximal_run_def py_def latin1_db_def latin1_defs)
  have h5: "agrees_latin1 latin1_db" by (rule agrees_latin1_latin1)
  have s: "str_int (Suc (Suc (Suc 0))) = [51]"
    using str_int_small[of 3] by (simp add: numeral_3_eq_3)
  from whitespace_exactness[of latin1_db "py ''No:''" "[32, 9, 32]" "py ''7''"] h1 h2 h3
  have a: "\<exists>p r. string_to_regex latin1_db (py ''No:'') True False = Inr p \<and>
          string_to_regex latin1_db (py ''7'') True False = Inr r \<and>
          string_to_regex latin1_db (py ''No:'' @ [32, 9, 32] @ py ''7'') True False =
            Inr (p @ [backslash] @ py ''s{3}'' @ r)"
    by (simp add: s py_def)
  from whitespace_exactness[of latin1_db] h5
  have c: "re_search latin1_db (py ''^'' @ [backslash] @ py ''s{2}$'') [32, 32, 32] = Some None"
    by blast
  from h1 h2 h3 h5 a c show ?thesis by blast
qed

text \<open>
  C1. In generic mode the characters between an opening and a closing double quote are
  emitted as one part, which is what literal mode returns for them (each special
  character behind a backslash, nothing turned into a class); no double quote is ever in
  the output. For \<open>"ABC-"123\<close> the pattern is \<open>ABC-\d{3}\<close>.
\<close>

theorem quote_preservation:
  "(classes_disjoint db \<and> quotes_closed pre \<and> dquote \<notin> set span \<longrightarrow>
      (\<exists>P R e. generic_parts db pre = Inr P \<and> generic_parts db rest = Inr R \<and>
         string_to_regex db span False False = Inr e \<and>
         generic_parts db (pre @ [dquote] @ span @ [dquote] @ rest) = Inr (P @ [e] @ R) \<and>
         string_to_regex db (pre @ [dquote] @ span @ [dquote] @ rest) True False =
           Inr (concat P @ e @ concat R))) \<and>
   (\<forall>out. string_to_regex db s True f = Inr out \<longrightarrow> dquote \<notin> set out) \<and>
   (agrees_latin1 db \<longrightarrow>
      string_to_regex db ([dquote] @ py ''ABC-'' @ [dquote] @ py ''123'') True False =
        Inr (py ''ABC-'' @ [backslash] @ py ''d{3}''))"
proof (intro conjI impI allI)
  assume "classes_disjoint db \<and> quotes_closed pre \<and> dquote \<notin> set span"
  then show "\<exists>P R e. generic_parts db pre = Inr P \<and> generic_parts db rest = Inr R \<and>
         string_to_regex db span False False = Inr e \<and>
         generic_parts db (pre @ [dquote] @ span @ [dquote] @ rest) = Inr (P @ [e] @ R) \<and>
         string_to_regex db (pre @ [dquote] @ span @ [dquote] @ rest) True False =
           Inr (concat P @ e @ concat R)"
    using quoted_parts(1)[of db pre span rest]
    by (simp add: string_to_regex_def generic_parts_eq)
next
  fix out
  assume "string_to_regex db s True f = Inr out"
  then have "out = (if f then py ''^'' @ concat (parts_of db False [] s) @ py ''$''
                    else concat (parts_of db False [] s))"
    by (simp add: string_to_regex_def generic_parts_eq split: if_splits)
  moreover have "dquote \<notin> set (concat (parts_of db False [] s))"
    by (rule no_dquote_parts) simp
  moreover have "dquote \<notin> set (py ''^'')" "dquote \<notin> set (py ''$'')"
    by (simp_all add: py_def dquote_def)
  ultimately show "dquote \<notin> set out" by (simp split: if_splits)
next
  assume a: "agrees_latin1 db"
  then show "string_to_regex db ([dquote] @ py ''ABC-'' @ [dquote] @ py ''123'') True False =
        Inr (py ''ABC-'' @ [backslash] @ py ''d{3}'')"
    by (simp add: string_to_regex_def generic_parts_eq eval_simps agrees_latin1D latin1_defs)
qed

theorem quote_preservation_witness:
  "classes_disjoint latin1_db \<and> quotes_closed (py ''No '') \<and> dquote \<notin> set (py ''a.b'') \<and>
   generic_parts latin1_db (py ''No '' @ [dquote] @ py ''a.b'' @ [dquote] @ py ''12'') =
     Inr [py ''[a-zA-Z]{2}'', [backslash] @ py ''s'', py ''a'' @ [backslash] @ py ''.b'',
          [backslash] @ py ''d{2}''] \<and>
   string_to_regex latin1_db (py ''No '' @ [dquote] @ py ''a.b'' @ [dquote] @ py ''12'') True False =
     Inr (py ''[a-zA-Z]{2}'' @ [backslash] @ py ''sa'' @ [backslash] @ py ''.b'' @ [backslash] @ py ''d{2}'') \<and>
   dquote \<notin> set (py ''[a-zA-Z]{2}'' @ [backslash] @ py ''sa'' @ [backslash] @ py ''.b'' @ [backslash] @ py ''d{2}'') \<and>
   agrees_latin1 latin1_db"
proof -
  have h1: "classes_disjoint latin1_db" by (rule classes_disjoint_latin1)
  have h2: "quotes_closed (py ''No '')" by (simp add: quotes_closed_def py_def dquote_def)
  have h3: "dquote \<notin> set (py ''a.b'')" by (simp add: py_def dquote_def)
  have h5: "agrees_latin1 latin1_db" by (rule agrees_latin1_latin1)
  have s: "str_int (Suc (Suc 0)) = [50]"
    using str_int_small[of 2] by (simp add: numeral_2_eq_2)
  have P: "generic_parts latin1_db (py ''No '') = Inr [py ''[a-zA-Z]{2}'', [backslash] @ py ''s'']"
    by (simp add: generic_parts_eq eval_simps latin1_db_def latin1_defs s)
  have R: "generic_parts latin1_db (py ''12'') = Inr [[backslash] @ py ''d{2}'']"
    by (simp add: generic_parts_eq eval_simps latin1_db_def latin1_defs s)
  have e: "string_to_regex latin1_db (py ''a.b'') False False = Inr (py ''a'' @ [backslash] @ py ''.b'')"
    by (simp add: string_to_regex_def eval_simps)
  from quote_preservation[of latin1_db "py ''No ''" "py ''a.b''" "py ''12''"] h1 h2 h3
  obtain P' R' e' where "generic_parts latin1_db (py ''No '') = Inr P'"
    "generic_parts latin1_db (py ''12'') = Inr R'"
    "string_to_regex latin1_db (py ''a.b'') False False = Inr e'"
    "generic_parts latin1_db (py ''No '' @ [dquote] @ py ''a.b'' @ [dquote] @ py ''12'') = Inr (P' @ [e'] @ R')"
    "string_to_regex latin1_db (py ''No '' @ [dquote] @ py ''a.b'' @ [dquote] @ py ''12'') True False =
           Inr (concat P' @ e' @ concat R')"
    by blast
  with P R e have
    a: "generic_parts latin1_db (py ''No '' @ [dquote] @ py ''a.b'' @ [dquote] @ py ''12'') =
     Inr [py ''[a-zA-Z]{2}'', [backslash] @ py ''s'', py ''a'' @ [backslash] @ py ''.b'',
          [backslash] @ py ''d{2}'']"
    and b: "string_to_regex latin1_db (py ''No '' @ [dquote] @ py ''a.b'' @ [dquote] @ py ''12'') True False =
     Inr (py ''[a-zA-Z]{2}'' @ [backslash] @ py ''sa'' @ [backslash] @ py ''.b'' @ [backslash] @ py ''d{2}'')"
    by (auto simp: py_def)
  from quote_preservation[of latin1_db _ _ _ "py ''No '' @ [dquote] @ py ''a.b'' @ [dquote] @ py ''12''" False] b
  have c: "dquote \<notin> set (py ''[a-zA-Z]{2}'' @ [backslash] @ py ''sa'' @ [backslash] @ py ''.b'' @ [backslash] @ py ''d{2}'')"
    by blast
  from h1 h2 h3 h5 a b c show ?thesis by blast
qed

text \<open>
  C6. In generic mode an input that ends inside a quote raises nothing: the span after
  the opening quote is flushed at the end, escaped as literal mode escapes it, and the
  result is the one of the same input with the quote closed. For \<open>"abc\<close> the pattern
  is \<open>abc\<close>, which matches the text \<open>abc\<close>.
\<close>

theorem unterminated_quote:
  "(classes_disjoint db \<and> quotes_closed pre \<and> dquote \<notin> set span \<longrightarrow>
      (\<exists>p e. string_to_regex db pre True False = Inr p \<and>
             string_to_regex db span False False = Inr e \<and>
             string_to_regex db (pre @ [dquote] @ span) True False = Inr (p @ e) \<and>
             string_to_regex db (pre @ [dquote] @ span @ [dquote]) True False = Inr (p @ e))) \<and>
   string_to_regex db ([dquote] @ py ''abc'') True False = Inr (py ''abc'') \<and>
   re_search db (py ''abc'') (py ''abc'') = Some (Some (0, 3))"
proof (intro conjI impI)
  assume h: "classes_disjoint db \<and> quotes_closed pre \<and> dquote \<notin> set span"
  then have "parts_of db False [] (pre @ [dquote] @ span @ [dquote] @ []) =
         parts_of db False [] pre @ [escape_all span] @ parts_of db False [] []"
    by (intro quoted_parts(1)) simp_all
  moreover from h have "concat (parts_of db False [] (pre @ [dquote] @ span)) =
         concat (parts_of db False [] pre) @ escape_all span"
    by (intro quoted_parts(2)) simp_all
  ultimately show "\<exists>p e. string_to_regex db pre True False = Inr p \<and>
             string_to_regex db span False False = Inr e \<and>
             string_to_regex db (pre @ [dquote] @ span) True False = Inr (p @ e) \<and>
             string_to_regex db (pre @ [dquote] @ span @ [dquote]) True False = Inr (p @ e)"
    by (simp add: string_to_regex_def generic_parts_eq)
next
  show "string_to_regex db ([dquote] @ py ''abc'') True False = Inr (py ''abc'')"
    by (simp add: string_to_regex_def generic_parts_eq eval_simps)
  show "re_search db (py ''abc'') (py ''abc'') = Some (Some (0, 3))"
    by (simp add: re_eval eval_simps)
qed

theorem unterminated_quote_witness:
  "classes_disjoint latin1_db \<and> quotes_closed (py ''No'') \<and> dquote \<notin> set (py ''a.b'') \<and>
   string_to_regex latin1_db (py ''No'' @ [dquote] @ py ''a.b'') True False =
     Inr (py ''[a-zA-Z]{2}a'' @ [backslash] @ py ''.b'') \<and>
   string_to_regex latin1_db (py ''No'' @ [dquote] @ py ''a.b'' @ [dquote]) True False =
     Inr (py ''[a-zA-Z]{2}a'' @ [backslash] @ py ''.b'')"
proof -
  have h1: "classes_disjoint latin1_db" by (rule classes_disjoint_latin1)
  have h2: "quotes_closed (py ''No'')" by (simp add: quotes_closed_def py_def dquote_def)
  have h3: "dquote \<notin> set (py ''a.b'')" by (simp add: py_def dquote_def)
  have s: "str_int (Suc (Suc 0)) = [50]"
    using str_int_small[of 2] by (simp add: numeral_2_eq_2)
  have P: "string_to_regex latin1_db (py ''No'') True False = Inr (py ''[a-zA-Z]{2}'')"
    by (simp add: string_to_regex_def generic_parts_eq eval_simps latin1_db_def latin1_defs s)
  have e: "string_to_regex latin1_db (py ''a.b'') False False = Inr (py ''a'' @ [backslash] @ py ''.b'')"
    by (simp add: string_to_regex_def eval_simps)
  from unterminated_quote[of latin1_db "py ''No''" "py ''a.b''"] h1 h2 h3
  obtain p' e' where "string_to_regex latin1_db (py ''No'') True False = Inr p'"
    "string_to_regex latin1_db (py ''a.b'') False False = Inr e'"
    "string_to_regex latin1_db (py ''No'' @ [dquote] @ py ''a.b'') True False = Inr (p' @ e')"
    "string_to_regex latin1_db (py ''No'' @ [dquote] @ py ''a.b'' @ [dquote]) True False = Inr (p' @ e')"
    by blast
  with P e have "string_to_regex latin1_db (py ''No'' @ [dquote] @ py ''a.b'') True False =
     Inr (py ''[a-zA-Z]{2}a'' @ [backslash] @ py ''.b'')"
   and "string_to_regex latin1_db (py ''No'' @ [dquote] @ py ''a.b'' @ [dquote]) True False =
     Inr (py ''[a-zA-Z]{2}a'' @ [backslash] @ py ''.b'')"
    by (auto simp: py_def)
  with h1 h2 h3 show ?thesis by blast
qed

text \<open>
  C7. For the empty input, in either mode, the result is the empty pattern without
  \<open>full_match\<close> and the two anchors \<open>^$\<close> with it; both are patterns that
  \<open>re\<close> accepts, the second one matching the empty string.
\<close>

theorem empty_input:
  "string_to_regex db [] g False = Inr [] \<and>
   string_to_regex db [] g True = Inr (py ''^$'') \<and>
   re_parse [] = Some [] \<and>
   re_parse (py ''^$'') = Some [(At_Beginning, 1), (At_End, 1)] \<and>
   re_search db (py ''^$'') [] = Some (Some (0, 0))"
  by (simp add: string_to_regex_def generic_parts_eq eval_simps re_eval)

text \<open>
  C10. In generic mode a maximal run of letters outside quotes is emitted as the part
  \<open>[a-zA-Z]\<close>, followed by its count when that is above 1, whatever letters it holds.
  The code point 233 (e with acute accent) is a letter for \<open>isalpha\<close>, so the pattern
  of that one-character string is \<open>[a-zA-Z]\<close>, which does not match the string, with
  or without the anchors.
\<close>

theorem letter_class_ascii_only:
  "(classes_disjoint db \<and> quotes_closed pre \<and> maximal_run (isalpha db) pre run rest \<longrightarrow>
      (\<exists>P R. generic_parts db pre = Inr P \<and> generic_parts db rest = Inr R \<and>
         generic_parts db (pre @ run @ rest) =
           Inr (P @ [py ''[a-zA-Z]'' @
                     (if 1 < length run then py ''{'' @ str_int (length run) @ py ''}'' else [])] @ R))) \<and>
   (agrees_latin1 db \<longrightarrow>
      isalpha db 233 \<and>
      string_to_regex db [233] True False = Inr (py ''[a-zA-Z]'') \<and>
      re_search db (py ''[a-zA-Z]'') [233] = Some None \<and>
      string_to_regex db [233] True True = Inr (py ''^[a-zA-Z]$'') \<and>
      re_search db (py ''^[a-zA-Z]$'') [233] = Some None)"
proof (intro conjI impI)
  assume h: "classes_disjoint db \<and> quotes_closed pre \<and> maximal_run (isalpha db) pre run rest"
  then show "\<exists>P R. generic_parts db pre = Inr P \<and> generic_parts db rest = Inr R \<and>
         generic_parts db (pre @ run @ rest) =
           Inr (P @ [py ''[a-zA-Z]'' @
                     (if 1 < length run then py ''{'' @ str_int (length run) @ py ''}'' else [])] @ R)"
    by (simp add: generic_parts_eq alpha_run_parts py_def)
next
  assume a: "agrees_latin1 db"
  then show "isalpha db 233" by (simp add: agrees_latin1D latin1_defs)
  from a show "string_to_regex db [233] True False = Inr (py ''[a-zA-Z]'')"
    by (simp add: string_to_regex_def generic_parts_eq eval_simps agrees_latin1D latin1_defs)
  from a show "re_search db (py ''[a-zA-Z]'') [233] = Some None"
    by (simp add: re_eval eval_simps agrees_latin1D latin1_defs)
  from a show "string_to_regex db [233] True True = Inr (py ''^[a-zA-Z]$'')"
    by (simp add: string_to_regex_def generic_parts_eq eval_simps agrees_latin1D latin1_defs)
  from a show "re_search db (py ''^[a-zA-Z]$'') [233] = Some None"
    by (simp add: re_eval eval_simps agrees_latin1D latin1_defs)
qed

theorem letter_class_ascii_only_witness:
  "classes_disjoint latin1_db \<and> quotes_closed (py ''1 '') \<and>
   maximal_run (isalpha latin1_db) (py ''1 '') [233, 116, 233] (py ''.'') \<and>
   generic_parts latin1_db (py ''1 '' @ [233, 116, 233] @ py ''.'') =
     Inr [[backslash] @ py ''d'', [backslash] @ py ''s'', py ''[a-zA-Z]{3}'', [backslash] @ py ''.''] \<and>
   agrees_latin1 latin1_db \<and> isalpha latin1_db 233 \<and>
   re_search latin1_db (py ''[a-zA-Z]'') [233] = Some None"
proof -
  have h1: "classes_disjoint latin1_db" by (rule classes_disjoint_latin1)
  have h2: "quotes_closed (py ''1 '')" by (simp add: quotes_closed_def py_def dquote_def)
  have h3: "maximal_run (isalpha latin1_db) (py ''1 '') [233, 116, 233] (py ''.'')"
    by (simp add: maximal_run_def py_def latin1_db_def latin1_defs)
  have h5: "agrees_latin1 latin1_db" by (rule agrees_latin1_latin1)
  have s: "str_int (Suc (Suc (Suc 0))) = [51]"
    using str_int_small[of 3] by (simp add: numeral_3_eq_3)
  have P: "generic_parts latin1_db (py ''1 '') = Inr [[backslash] @ py ''d'', [backslash] @ py ''s'']"
    by (simp add: generic_parts_eq eval_simps latin1_db_def latin1_defs)
  have R: "generic_parts latin1_db (py ''.'') = Inr [[backslash] @ py ''.'']"
    by (simp add: generic_parts_eq eval_simps latin1_db_def latin1_defs)
  from letter_class_ascii_only[of latin1_db "py ''1 ''" "[233, 116, 233]" "py ''.''"] h1 h2 h3
  obtain P' R' where "generic_parts latin1_db (py ''1 '') = Inr P'"
    "generic_parts latin1_db (py ''.'') = Inr R'"
    "generic_parts latin1_db (py ''1 '' @ [233, 116, 233] @ py ''.'') =
       Inr (P' @ [py ''[a-zA-Z]'' @
                     (if 1 < length [233, 116, 233 :: nat] then py ''{'' @ str_int (length [233, 116, 233 :: nat]) @ py ''}'' else [])] @ R')"
    by blast
  with P R have a: "generic_parts latin1_db (py ''1 '' @ [233, 116, 233] @ py ''.'') =
     Inr [[backslash] @ py ''d'', [backslash] @ py ''s'', py ''[a-zA-Z]{3}'', [backslash] @ py ''.'']"
    by (auto simp: py_def s)
  from letter_class_ascii_only[of latin1_db] h5
  have c: "isalpha latin1_db 233" "re_search latin1_db (py ''[a-zA-Z]'') [233] = Some None"
    by blast+
  from h1 h2 h3 h5 a c show ?thesis by blast
qed

text \<open>
  C9. The command line program with the argument \<open>"INV-"\<close> and the input lines
  \<open>y\<close>, \<open>INV-7\<close> and the empty line: it prints the pattern \<open>INV-\<close>, reads the test
  string, prints the heading of the results, and then the call of \<open>test_regex\<close> raises
  TypeError; no result is reported and the exit status is 1.
\<close>

theorem main_test_raises:
  "main db [py ''convert_regex.py'', [dquote] @ py ''INV-'' @ [dquote]]
        \<lparr>stdin = [py ''y'', py ''INV-7'', []], stdout = []\<rparr>
   = (Inl TypeError,
      \<lparr>stdin = [],
       stdout = [py ''Convert String to Regular Expression'',
                 py ''==================================='',
                 [10] @ py ''Regex Pattern:'',
                 py ''INV-'',
                 [10] @ py ''Test this pattern? (y/n): '',
                 py ''Enter test strings (empty line to finish):'',
                 py ''> '', py ''> '',
                 [10] @ py ''Test Results:'']\<rparr>) \<and>
   exit_status (fst (main db [py ''convert_regex.py'', [dquote] @ py ''INV-'' @ [dquote]]
        \<lparr>stdin = [py ''y'', py ''INV-7'', []], stdout = []\<rparr>)) = 1"
  by (simp add: main_def print_line_def py_input_def getitem_def string_to_regex_def
      generic_parts_eq eval_simps starts_with_y_def read_test_strings.simps call_test_regex_def
      exit_status_def)

end
